theory Spec2Isabelle
  imports Main
begin

section \<open>The environment of the service\<close>

text \<open>
  The service of \<^verbatim>\<open>main.py\<close> keeps its short links in the module-level dictionary
  \<^verbatim>\<open>url_db\<close> and reports every step through \<^verbatim>\<open>Log\<close> of \<^verbatim>\<open>logger.py\<close>, which talks to two
  remote endpoints and caches a bearer token in the module-level \<^verbatim>\<open>auth_token_storage\<close>.
  Both globals are fields of one record, passed through every function and returned
  updated. What the program reads from outside (the replies of the two endpoints and the
  draws of \<^verbatim>\<open>secrets.choice\<close>) are oracles in the same record, consumed in order; the
  reading of the clock is an argument of the handler that reads it.
\<close>

subsection \<open>JSON values, as \<^verbatim>\<open>response.json()\<close> returns them\<close>

text \<open>
  \<open>JNull\<close> is Python's \<^verbatim>\<open>None\<close>. Numbers are integers here; the code only tests a
  number for truthiness and formats it.
\<close>

datatype json =
    JNull
  | JBool bool
  | JNumber int
  | JString string
  | JArray "json list"
  | JObject "(string \<times> json) list"

text \<open>Python's truth value of a decoded JSON value (\<^verbatim>\<open>if not access_token\<close>).\<close>

fun truthy :: "json \<Rightarrow> bool" where
  "truthy JNull = False"
| "truthy (JBool b) = b"
| "truthy (JNumber n) = (n \<noteq> 0)"
| "truthy (JString s) = (s \<noteq> [])"
| "truthy (JArray xs) = (xs \<noteq> [])"
| "truthy (JObject kvs) = (kvs \<noteq> [])"

text \<open>
  The exceptions that leave a function of the two files. \<open>HTTPException\<close> carries the
  status code; the other two are Python's built-in exceptions of the same names.
\<close>

datatype exn = HTTPException nat | AttributeError | OverflowError

text \<open>
  \<^verbatim>\<open>token_data.get(key)\<close>: only a dict has the method; on any other decoded value the
  attribute lookup raises \<^verbatim>\<open>AttributeError\<close>. A key that occurs twice in the JSON text
  keeps its last value; a missing key gives \<^verbatim>\<open>None\<close>.
\<close>

fun dict_get :: "json \<Rightarrow> string \<Rightarrow> exn + json" where
  "dict_get (JObject kvs) k = Inr (case map_of (rev kvs) k of None \<Rightarrow> JNull | Some v \<Rightarrow> v)"
| "dict_get JNull k = Inl AttributeError"
| "dict_get (JBool b) k = Inl AttributeError"
| "dict_get (JNumber n) k = Inl AttributeError"
| "dict_get (JString s) k = Inl AttributeError"
| "dict_get (JArray xs) k = Inl AttributeError"

subsection \<open>Replies of the remote endpoints\<close>

text \<open>
  What one \<^verbatim>\<open>requests.post\<close> call gives: \<open>RequestFailed\<close> when the call raises a
  \<^verbatim>\<open>requests.exceptions.RequestException\<close> (no connection, timeout, a header that cannot be
  sent), otherwise a response with its status code and its body, \<open>None\<close> when the body
  is not JSON.
\<close>

datatype http_reply = RequestFailed | Response nat "json option"

text \<open>The literal types of \<^verbatim>\<open>logger.py\<close>.\<close>

datatype LogStack = backend | frontend

datatype LogLevel = debug | info | warn | error | fatal

datatype LogPackage =
  cache | controller | cron_job | db | domain | handler | repository | route | service

text \<open>
  What the logger does that can be observed: the lines it prints (one constructor for
  each \<^verbatim>\<open>print\<close> of \<^verbatim>\<open>logger.py\<close>) and the requests it sends.
\<close>

datatype console_line =
    Attempting_to_get_token
  | Access_token_not_found
  | Token_cached
  | Could_not_fetch_token
  | Log_failed_no_token LogLevel LogPackage string
  | Log_submission_failed nat
  | Error_sending_log

datatype event =
    Print console_line
  | PostAuth
  | PostLog json LogStack LogLevel LogPackage string

subsection \<open>The state\<close>

record entry =
  long_url :: string
  expiry_utc :: int

record world =
  url_db :: "string \<rightharpoonup> entry"
  auth_token_storage :: "json option"
  trace :: "event list"
  auth_replies :: "nat \<Rightarrow> http_reply"
  log_replies :: "nat \<Rightarrow> http_reply"
  draws :: "nat \<Rightarrow> nat"

text \<open>
  \<open>auth_token_storage\<close> is \<open>None\<close> for Python's \<^verbatim>\<open>None\<close> and \<open>Some t\<close> for the dict
  \<^verbatim>\<open>{'token': t}\<close>, the only dict the code ever stores; such a dict is truthy whatever
  \<open>t\<close> is. \<open>auth_replies w 0\<close> is the reply to the next request to the auth endpoint,
  \<open>log_replies w 0\<close> the reply to the next request to the log endpoint, and
  \<open>draws w 0\<close> the next random index.
\<close>

definition emit :: "event \<Rightarrow> world \<Rightarrow> world" where
  "emit ev w = w\<lparr>trace := trace w @ [ev]\<rparr>"

definition post_auth :: "world \<Rightarrow> http_reply \<times> world" where
  "post_auth w =
     (auth_replies w 0,
      w\<lparr>trace := trace w @ [PostAuth], auth_replies := (\<lambda>n. auth_replies w (Suc n))\<rparr>)"

definition post_log ::
  "json \<Rightarrow> LogStack \<Rightarrow> LogLevel \<Rightarrow> LogPackage \<Rightarrow> string \<Rightarrow> world \<Rightarrow> http_reply \<times> world" where
  "post_log token stack level package message w =
     (log_replies w 0,
      w\<lparr>trace := trace w @ [PostLog token stack level package message],
        log_replies := (\<lambda>n. log_replies w (Suc n))\<rparr>)"

section \<open>\<^verbatim>\<open>logger.py\<close>\<close>

text \<open>
  \<^verbatim>\<open>response.raise_for_status()\<close> raises \<^verbatim>\<open>HTTPError\<close>, a \<^verbatim>\<open>RequestException\<close>, for a
  status from 400 to 599.
\<close>

definition raise_for_status :: "nat \<Rightarrow> bool" where
  "raise_for_status status = (400 \<le> status \<and> status < 600)"

text \<open>
  \<^verbatim>\<open>get_auth_token\<close>. The result is \<open>Inr\<close> of the returned value (\<open>JNull\<close> for
  \<^verbatim>\<open>None\<close>) or \<open>Inl\<close> of the exception that leaves the function. The \<^verbatim>\<open>try\<close> block
  catches \<^verbatim>\<open>RequestException\<close> only: a failed request, an error status and a body that
  is not JSON (\<^verbatim>\<open>requests.exceptions.JSONDecodeError\<close>) end in the handler, the
  \<^verbatim>\<open>AttributeError\<close> of \<^verbatim>\<open>token_data.get\<close> does not. The lock is released on every path
  and plays no part in a sequential run.
\<close>

definition get_auth_token :: "world \<Rightarrow> (exn + json) \<times> world" where
  "get_auth_token w =
     (case auth_token_storage w of
        Some token \<Rightarrow> (Inr token, w)
      | None \<Rightarrow>
          (case post_auth (emit (Print Attempting_to_get_token) w) of
             (RequestFailed, w1) \<Rightarrow> (Inr JNull, emit (Print Could_not_fetch_token) w1)
           | (Response status body, w1) \<Rightarrow>
               if raise_for_status status
               then (Inr JNull, emit (Print Could_not_fetch_token) w1)
               else (case body of
                       None \<Rightarrow> (Inr JNull, emit (Print Could_not_fetch_token) w1)
                     | Some token_data \<Rightarrow>
                         (case dict_get token_data ''access_token'' of
                            Inl e \<Rightarrow> (Inl e, w1)
                          | Inr access_token \<Rightarrow>
                              if \<not> truthy access_token
                              then (Inr JNull, emit (Print Access_token_not_found) w1)
                              else (Inr access_token,
                                    emit (Print Token_cached)
                                      (w1\<lparr>auth_token_storage := Some access_token\<rparr>))))))"

text \<open>\<^verbatim>\<open>Log\<close>. The call of \<^verbatim>\<open>get_auth_token\<close> is outside the \<^verbatim>\<open>try\<close> block.\<close>

definition Log ::
  "LogStack \<Rightarrow> LogLevel \<Rightarrow> LogPackage \<Rightarrow> string \<Rightarrow> world \<Rightarrow> (exn + unit) \<times> world" where
  "Log stack level package message w =
     (case get_auth_token w of
        (Inl e, w1) \<Rightarrow> (Inl e, w1)
      | (Inr token, w1) \<Rightarrow>
          if \<not> truthy token
          then (Inr (), emit (Print (Log_failed_no_token level package message)) w1)
          else (case post_log token stack level package message w1 of
                  (RequestFailed, w2) \<Rightarrow> (Inr (), emit (Print Error_sending_log) w2)
                | (Response status body, w2) \<Rightarrow>
                    if status \<noteq> 200
                    then (Inr (), emit (Print (Log_submission_failed status)) w2)
                    else (Inr (), w2)))"

section \<open>\<^verbatim>\<open>main.py\<close>\<close>

subsection \<open>Configuration\<close>

text \<open>
  \<^verbatim>\<open>config.py\<close> is not among the sources; the three values \<^verbatim>\<open>main.py\<close> reads from it
  are parameters. \<^verbatim>\<open>range(config.SHORTCODE_LENGTH)\<close> needs a number of iterations, so
  the length is a natural number.
\<close>

record config =
  BASE_SHORT_URL :: string
  DEFAULT_VALIDITY_MINUTES :: int
  SHORTCODE_LENGTH :: nat

subsection \<open>Dates and times\<close>

text \<open>
  An aware UTC \<^verbatim>\<open>datetime\<close> is the number of microseconds since
  0001-01-01T00:00:00, the smallest value of the type; the largest is
  9999-12-31T23:59:59.999999. A \<^verbatim>\<open>timedelta\<close> is a number of microseconds whose whole days
  do not exceed 999999999 in magnitude. Both constructors raise \<^verbatim>\<open>OverflowError\<close>
  outside these ranges.
\<close>

type_synonym datetime = int

definition datetime_max :: datetime where
  "datetime_max = 3652059 * 86400000000 - 1"

definition is_datetime :: "int \<Rightarrow> bool" where
  "is_datetime t = (0 \<le> t \<and> t \<le> datetime_max)"

definition timedelta_minutes :: "int \<Rightarrow> exn + int" where
  "timedelta_minutes m =
     (let us = m * 60000000; days = us div 86400000000
      in if days < - 999999999 \<or> 999999999 < days then Inl OverflowError else Inr us)"

definition datetime_add :: "datetime \<Rightarrow> int \<Rightarrow> exn + datetime" where
  "datetime_add t delta = (if is_datetime (t + delta) then Inr (t + delta) else Inl OverflowError)"

text \<open>The calendar date of a day number (0 is 0001-01-01), in the proleptic Gregorian calendar.\<close>

fun find_month :: "int list \<Rightarrow> int \<Rightarrow> int \<Rightarrow> int \<times> int" where
  "find_month [] m r = (m, r + 1)"
| "find_month (l # ls) m r = (if r < l then (m, r + 1) else find_month ls (m + 1) (r - l))"

definition month_lengths :: "bool \<Rightarrow> int list" where
  "month_lengths leap = [31, if leap then 29 else 28, 31, 30, 31, 30, 31, 31, 30, 31, 30, 31]"

definition ymd :: "int \<Rightarrow> int \<times> int \<times> int" where
  "ymd n =
     (let n400 = n div 146097; r0 = n mod 146097;
          n100 = min 3 (r0 div 36524); r1 = r0 - n100 * 36524;
          n4 = r1 div 1461; r2 = r1 mod 1461;
          n1 = min 3 (r2 div 365); r3 = r2 - n1 * 365;
          leap = (n1 = 3 \<and> (n4 \<noteq> 24 \<or> n100 = 3))
      in case find_month (month_lengths leap) 1 r3 of
           (m, d) \<Rightarrow> (400 * n400 + 100 * n100 + 4 * n4 + n1 + 1, m, d))"

definition digit :: "int \<Rightarrow> char" where
  "digit n = ''0123456789'' ! nat (n mod 10)"

definition pad2 :: "int \<Rightarrow> string" where
  "pad2 n = [digit (n div 10), digit n]"

definition pad4 :: "int \<Rightarrow> string" where
  "pad4 n = pad2 (n div 100) @ pad2 n"

definition pad6 :: "int \<Rightarrow> string" where
  "pad6 n = pad2 (n div 10000) @ pad4 n"

text \<open>The common prefix \<^verbatim>\<open>YYYY-MM-DDTHH:MM:SS\<close> of the two renderings below.\<close>

definition date_time_text :: "datetime \<Rightarrow> string" where
  "date_time_text t =
     (let secs = (t mod 86400000000) div 1000000
      in case ymd (t div 86400000000) of
           (y, m, d) \<Rightarrow>
             pad4 y @ ''-'' @ pad2 m @ ''-'' @ pad2 d @ ''T'' @
             pad2 (secs div 3600) @ '':'' @ pad2 (secs div 60 mod 60) @ '':'' @ pad2 (secs mod 60))"

text \<open>\<^verbatim>\<open>expiry_datetime_utc.strftime('%Y-%m-%dT%H:%M:%SZ')\<close>: the microseconds are dropped.\<close>

definition strftime :: "datetime \<Rightarrow> string" where
  "strftime t = date_time_text t @ ''Z''"

text \<open>\<^verbatim>\<open>expiry_datetime_utc.isoformat()\<close> of an aware UTC value.\<close>

definition isoformat :: "datetime \<Rightarrow> string" where
  "isoformat t =
     date_time_text t @ (if t mod 1000000 = 0 then [] else ''.'' @ pad6 (t mod 1000000)) @ ''+00:00''"

subsection \<open>The request and response models\<close>

record URLShortenRequest =
  url :: string
  validity :: int
  shortcode :: "string option"

record URLShortenResponse =
  shortlink :: string
  expiry :: string


definition ascii_letters :: string where
  "ascii_letters = ''abcdefghijklmnopqrstuvwxyzABCDEFGHIJKLMNOPQRSTUVWXYZ''"

definition digits :: string where
  "digits = ''0123456789''"



subsection \<open>Sequencing\<close>

text \<open>
  A step of a handler takes the state and gives \<open>Inr\<close> of its value or \<open>Inl\<close> of the
  exception it raises, with the state it leaves. An exception ends the handler: the steps
  after it do not run. \<open>and_then\<close> sequences steps that always return;
  \<open>and_then_p\<close> sequences steps that may run forever (\<open>None\<close>).
\<close>

definition returns :: "'a \<Rightarrow> world \<Rightarrow> (exn + 'a) \<times> world" where
  "returns x w = (Inr x, w)"

definition raises :: "exn \<Rightarrow> world \<Rightarrow> (exn + 'a) \<times> world" where
  "raises e w = (Inl e, w)"

definition and_then ::
  "(world \<Rightarrow> (exn + 'a) \<times> world) \<Rightarrow> ('a \<Rightarrow> world \<Rightarrow> (exn + 'b) \<times> world) \<Rightarrow>
   world \<Rightarrow> (exn + 'b) \<times> world" where
  "and_then m f w = (case m w of (Inl e, w1) \<Rightarrow> (Inl e, w1) | (Inr x, w1) \<Rightarrow> f x w1)"

definition total ::
  "(world \<Rightarrow> (exn + 'a) \<times> world) \<Rightarrow> world \<Rightarrow> ((exn + 'a) \<times> world) option" where
  "total m w = Some (m w)"

definition and_then_p ::
  "(world \<Rightarrow> ((exn + 'a) \<times> world) option) \<Rightarrow>
   ('a \<Rightarrow> world \<Rightarrow> ((exn + 'b) \<times> world) option) \<Rightarrow>
   world \<Rightarrow> ((exn + 'b) \<times> world) option" where
  "and_then_p m f w =
     (case m w of
        None \<Rightarrow> None
      | Some (Inl e, w1) \<Rightarrow> Some (Inl e, w1)
      | Some (Inr x, w1) \<Rightarrow> f x w1)"

subsection \<open>\<^verbatim>\<open>generate_unique_shortcode\<close>\<close>

definition chars :: string where
  "chars = ascii_letters @ digits"

text \<open>
  \<^verbatim>\<open>secrets.choice(seq)\<close> is \<^verbatim>\<open>seq[randbelow(len(seq))]\<close>; the oracle gives the random
  number, reduced here below the length so that every oracle is a run of the generator.
\<close>

definition secrets_choice :: "string \<Rightarrow> nat \<Rightarrow> char" where
  "secrets_choice seq r = seq ! (r mod length seq)"

text \<open>One pass of the loop body up to the test: \<open>n\<close> characters drawn, \<open>n\<close> draws used up.\<close>

definition random_shortcode :: "nat \<Rightarrow> world \<Rightarrow> string \<times> world" where
  "random_shortcode n w =
     (map (\<lambda>i. secrets_choice chars (draws w i)) [0..<n],
      w\<lparr>draws := (\<lambda>i. draws w (i + n))\<rparr>)"

definition quote :: "string \<Rightarrow> string" where
  "quote s = [CHR 0x27] @ s @ [CHR 0x27]"

text \<open>The \<^verbatim>\<open>while True\<close> loop: it ends only when a drawn code is not a key of the store.\<close>

partial_function (option) generate_loop :: "nat \<Rightarrow> world \<Rightarrow> ((exn + string) \<times> world) option" where
  "generate_loop n w =
     (case random_shortcode n w of
        (code, w1) \<Rightarrow>
          if url_db w1 code = None
          then Some (and_then
                       (Log backend debug service (''Generated shortcode '' @ quote code @ '' is unique.''))
                       (\<lambda>_. returns code) w1)
          else generate_loop n w1)"

declare generate_loop.simps [code]

definition generate_unique_shortcode :: "config \<Rightarrow> world \<Rightarrow> ((exn + string) \<times> world) option" where
  "generate_unique_shortcode cfg =
     and_then_p (total (Log backend info service ''Generating a new unique shortcode.''))
       (\<lambda>_. generate_loop (SHORTCODE_LENGTH cfg))"

subsection \<open>\<^verbatim>\<open>create_short_url\<close>\<close>

text \<open>
  \<^verbatim>\<open>if shortcode:\<close> is false for \<^verbatim>\<open>None\<close> and for the empty string. \<open>now\<close> is what
  \<^verbatim>\<open>datetime.now(timezone.utc)\<close> returns at line 75. A returned response is sent with
  status 201, the \<^verbatim>\<open>status_code\<close> of the route; an exception that is not an
  \<open>HTTPException\<close> is answered with status 500 by the framework.
\<close>

text \<open>Lines 71 to 73, the branch taken when no custom shortcode is given.\<close>

definition no_custom_shortcode :: "config \<Rightarrow> world \<Rightarrow> ((exn + string) \<times> world) option" where
  "no_custom_shortcode cfg =
     and_then_p
       (total (Log backend debug handler ''No custom shortcode provided. Generating a new one.''))
       (\<lambda>_. generate_unique_shortcode cfg)"

text \<open>Lines 64 to 73: the shortcode under which the mapping will be stored.\<close>

definition pick_shortcode ::
  "config \<Rightarrow> URLShortenRequest \<Rightarrow> world \<Rightarrow> ((exn + string) \<times> world) option" where
  "pick_shortcode cfg request_data =
     (case shortcode request_data of
        None \<Rightarrow> no_custom_shortcode cfg
      | Some code \<Rightarrow>
          if code = [] then no_custom_shortcode cfg
          else and_then_p
                 (total (Log backend debug handler
                           (''Custom shortcode '' @ quote code @ '' was provided.'')))
                 (\<lambda>_ w. if url_db w code \<noteq> None
                         then and_then_p
                                (total (Log backend warn handler
                                          (''Custom shortcode '' @ quote code @
                                           '' is unavailable. Generating a new one.'')))
                                (\<lambda>_. generate_unique_shortcode cfg) w
                         else Some (returns code w)))"

text \<open>Line 75: \<^verbatim>\<open>datetime.now(timezone.utc) + timedelta(minutes=request_data.validity)\<close>.\<close>

definition expiry_of :: "datetime \<Rightarrow> int \<Rightarrow> exn + datetime" where
  "expiry_of now minutes =
     (case timedelta_minutes minutes of
        Inl e \<Rightarrow> Inl e
      | Inr delta \<Rightarrow> datetime_add now delta)"

text \<open>Lines 75 to 87: the expiry, the insertion into the store and the response.\<close>

definition store_mapping ::
  "config \<Rightarrow> datetime \<Rightarrow> URLShortenRequest \<Rightarrow> string \<Rightarrow> world \<Rightarrow>
   (exn + URLShortenResponse) \<times> world" where
  "store_mapping cfg now request_data code =
     and_then (\<lambda>w. (expiry_of now (validity request_data), w))
       (\<lambda>expiry_datetime_utc. and_then
          (Log backend debug service
             (''Calculated expiry for '' @ quote code @ '': '' @ isoformat expiry_datetime_utc))
          (\<lambda>_. and_then
             (\<lambda>w. returns ()
                (w\<lparr>url_db := (url_db w)
                     (code \<mapsto> \<lparr>long_url = url request_data, expiry_utc = expiry_datetime_utc\<rparr>)\<rparr>))
             (\<lambda>_. and_then
                (Log backend info db
                   (''Successfully stored mapping for shortcode '' @ quote code @ ''.''))
                (\<lambda>_. returns
                        \<lparr>shortlink = BASE_SHORT_URL cfg @ ''/'' @ code,
                         expiry = strftime expiry_datetime_utc\<rparr>))))"

definition create_short_url ::
  "config \<Rightarrow> datetime \<Rightarrow> URLShortenRequest \<Rightarrow> world \<Rightarrow> ((exn + URLShortenResponse) \<times> world) option"
  where
  "create_short_url cfg now request_data =
     and_then_p
       (total (Log backend info handler (''Received request to shorten URL: '' @ url request_data)))
       (\<lambda>_. and_then_p (pick_shortcode cfg request_data)
          (\<lambda>code. total (store_mapping cfg now request_data code)))"

subsection \<open>\<^verbatim>\<open>redirect_to_long_url\<close> and \<^verbatim>\<open>health_check\<close>\<close>

datatype RedirectResponse = RedirectResponse string

text \<open>
  \<open>now\<close> is what \<^verbatim>\<open>datetime.now(timezone.utc)\<close> returns at line 103; the clock is read
  only when the entry exists. A stored entry is a dict of two keys, so \<^verbatim>\<open>not url_data\<close>
  holds exactly when \<^verbatim>\<open>url_db.get\<close> found nothing. \<^verbatim>\<open>del url_db[shortcode]\<close> removes the
  key.
\<close>

definition redirect_to_long_url ::
  "datetime \<Rightarrow> string \<Rightarrow> world \<Rightarrow> (exn + RedirectResponse) \<times> world" where
  "redirect_to_long_url now code =
     and_then
       (Log backend info handler (''Redirect request received for shortcode: '' @ quote code @ ''.''))
       (\<lambda>_ w. case url_db w code of
                 None \<Rightarrow>
                   and_then
                     (Log backend error handler
                        (''Shortcode '' @ quote code @ '' not found in database.''))
                     (\<lambda>_. raises (HTTPException 404)) w
               | Some url_data \<Rightarrow>
                   if expiry_utc url_data < now
                   then and_then
                          (Log backend warn handler
                             (''Shortcode '' @ quote code @ '' has expired. Removing from DB.''))
                          (\<lambda>_. and_then
                                  (\<lambda>w. returns () (w\<lparr>url_db := (url_db w)(code := None)\<rparr>))
                                  (\<lambda>_. raises (HTTPException 410))) w
                   else and_then
                          (Log backend info handler
                             (''Successfully redirecting '' @ quote code @ '' to its destination.''))
                          (\<lambda>_. returns (RedirectResponse (long_url url_data))) w)"

definition health_check :: "world \<Rightarrow> (exn + string) \<times> world" where
  "health_check =
     and_then (Log backend info route ''Health check endpoint was hit.'')
       (\<lambda>_. returns ''URL Shortener service is running'')"

section \<open>Notions used to state the properties\<close>

subsection \<open>Replies of the auth endpoint that are JSON objects\<close>

fun is_dict :: "json \<Rightarrow> bool" where
  "is_dict (JObject kvs) = True"
| "is_dict JNull = False"
| "is_dict (JBool b) = False"
| "is_dict (JNumber n) = False"
| "is_dict (JString s) = False"
| "is_dict (JArray xs) = False"

text \<open>
  A reply of the auth endpoint is of the expected form when it is a failure of any kind
  (no answer, an error status, a body that is not JSON) or carries a JSON object, whatever
  the object holds.
\<close>

definition auth_reply_ok :: "http_reply \<Rightarrow> bool" where
  "auth_reply_ok r =
     (case r of
        RequestFailed \<Rightarrow> True
      | Response status body \<Rightarrow>
          raise_for_status status \<or> (case body of None \<Rightarrow> True | Some j \<Rightarrow> is_dict j))"

definition auth_api_ok :: "world \<Rightarrow> bool" where
  "auth_api_ok w = (\<forall>n. auth_reply_ok (auth_replies w n))"

text \<open>
  \<open>Log\<close> asks the auth endpoint only while no token is cached, so its calls return
  normally in every state that holds a token or whose auth endpoint replies in the
  expected form.
\<close>

definition log_safe :: "world \<Rightarrow> bool" where
  "log_safe w = (auth_token_storage w \<noteq> None \<or> auth_api_ok w)"

text \<open>The state a call of \<open>Log\<close> leaves.\<close>

definition Log_world :: "LogStack \<Rightarrow> LogLevel \<Rightarrow> LogPackage \<Rightarrow> string \<Rightarrow> world \<Rightarrow> world" where
  "Log_world stack level package message w = snd (Log stack level package message w)"

subsection \<open>States used as examples\<close>

text \<open>
  A process that has just started: empty store, no token, nothing printed or sent. In
  \<open>offline_world\<close> no request gets an answer; in \<open>array_reply_world\<close> the auth
  endpoint answers 200 with the JSON array \<^verbatim>\<open>[]\<close>; in \<open>online_world\<close> the auth endpoint
  grants the token \<^verbatim>\<open>"tok"\<close> and the log endpoint answers 200.
\<close>

definition fresh_world :: "(nat \<Rightarrow> http_reply) \<Rightarrow> (nat \<Rightarrow> http_reply) \<Rightarrow> (nat \<Rightarrow> nat) \<Rightarrow> world" where
  "fresh_world a l d =
     \<lparr>url_db = Map.empty, auth_token_storage = None, trace = [],
      auth_replies = a, log_replies = l, draws = d\<rparr>"

definition example_config :: config where
  "example_config =
     \<lparr>BASE_SHORT_URL = ''http://localhost:8000'', DEFAULT_VALIDITY_MINUTES = 30,
      SHORTCODE_LENGTH = 6\<rparr>"

definition offline_world :: world where
  "offline_world = fresh_world (\<lambda>_. RequestFailed) (\<lambda>_. RequestFailed) (\<lambda>i. i)"

definition array_reply_world :: world where
  "array_reply_world =
     fresh_world (\<lambda>_. Response 200 (Some (JArray []))) (\<lambda>_. RequestFailed) (\<lambda>i. i)"

definition online_world :: world where
  "online_world =
     fresh_world (\<lambda>_. Response 200 (Some (JObject [(''access_token'', JString ''tok'')])))
       (\<lambda>_. Response 200 None) (\<lambda>i. i)"

text \<open>
  \<open>stored_world\<close> is \<open>offline_world\<close> after \<^verbatim>\<open>abcd\<close> was stored for
  \<^verbatim>\<open>https://example.com/page\<close> with the expiry 2026-11-03T12:01:00 UTC.
\<close>

definition stored_world :: world where
  "stored_world =
     offline_world\<lparr>url_db :=
       [''abcd'' \<mapsto> \<lparr>long_url = ''https://example.com/page'', expiry_utc = 63929304060000000\<rparr>]\<rparr>"


definition example_request :: URLShortenRequest where
  "example_request =
     \<lparr>url = ''https://example.com/page'', validity = 1, shortcode = Some ''abcd''\<rparr>"



subsection \<open>Passes of the generator's loop\<close>

text \<open>
  \<open>passes n k w\<close> is the state after \<open>k\<close> passes that all drew a code already in
  the store, and \<open>nth_code n w k\<close> the code drawn in the pass after them.
\<close>

definition passes :: "nat \<Rightarrow> nat \<Rightarrow> world \<Rightarrow> world" where
  "passes n k = (\<lambda>w. snd (random_shortcode n w)) ^^ k"

definition nth_code :: "nat \<Rightarrow> world \<Rightarrow> nat \<Rightarrow> string" where
  "nth_code n w k = fst (random_shortcode n (passes n k w))"

subsection \<open>Requests in sequence\<close>


text \<open>
  The three routes of the service, each with the reading of the clock its handler takes,
  and the state a request leaves (\<open>None\<close> when the handler does not return).
\<close>

datatype request =
    POST_shorturls datetime URLShortenRequest
  | GET_shortcode datetime string
  | GET_root

fun serve :: "config \<Rightarrow> request \<Rightarrow> world \<Rightarrow> world option" where
  "serve cfg (POST_shorturls now request_data) w =
     map_option snd (create_short_url cfg now request_data w)"
| "serve cfg (GET_shortcode now code) w = Some (snd (redirect_to_long_url now code w))"
| "serve cfg GET_root w = Some (snd (health_check w))"

fun serve_all :: "config \<Rightarrow> request list \<Rightarrow> world \<Rightarrow> world option" where
  "serve_all cfg [] w = Some w"
| "serve_all cfg (rq # rqs) w =
     (case serve cfg rq w of None \<Rightarrow> None | Some w1 \<Rightarrow> serve_all cfg rqs w1)"

subsection \<open>How the state can change\<close>

text \<open>
  The only writes of the two files: a call of \<open>Log\<close>, an assignment to the store and
  the use of random draws.
\<close>

inductive evolves :: "world \<Rightarrow> world \<Rightarrow> bool" where
  same: "evolves w w"
| logged: "evolves w w1 \<Longrightarrow> evolves w (Log_world s l p m w1)"
| stored: "evolves w w1 \<Longrightarrow> evolves w (w1\<lparr>url_db := f\<rparr>)"
| drawn: "evolves w w1 \<Longrightarrow> evolves w (w1\<lparr>draws := g\<rparr>)"

definition keeps :: "(world \<Rightarrow> 'a \<times> world) \<Rightarrow> bool" where
  "keeps m = (\<forall>w. evolves w (snd (m w)))"

definition keeps_p :: "(world \<Rightarrow> ('a \<times> world) option) \<Rightarrow> bool" where
  "keeps_p m = (\<forall>w. case m w of None \<Rightarrow> True | Some (r, w1) \<Rightarrow> evolves w w1)"

section \<open>The logger\<close>

subsection \<open>What \<open>get_auth_token\<close> changes and when it raises\<close>

lemma dict_get_raises: "dict_get j k = Inl e \<Longrightarrow> e = AttributeError \<and> \<not> is_dict j"
  by (cases j) auto

lemma get_auth_token_cached: "auth_token_storage w = Some t \<Longrightarrow> get_auth_token w = (Inr t, w)"
  by (simp add: get_auth_token_def)

lemma get_auth_token_frame:
  "url_db (snd (get_auth_token w)) = url_db w"
  "draws (snd (get_auth_token w)) = draws w"
  "log_replies (snd (get_auth_token w)) = log_replies w"
  by (auto simp: get_auth_token_def post_auth_def emit_def
      split: option.splits prod.splits http_reply.splits sum.splits)

lemma get_auth_token_returns_first:
  "auth_reply_ok (auth_replies w 0) \<Longrightarrow> \<exists>t. fst (get_auth_token w) = Inr t"
  by (auto simp: get_auth_token_def post_auth_def emit_def auth_reply_ok_def
      split: option.splits prod.splits http_reply.splits sum.splits dest!: dict_get_raises)

lemma get_auth_token_returns: "auth_api_ok w \<Longrightarrow> \<exists>t. fst (get_auth_token w) = Inr t"
  by (simp add: auth_api_ok_def get_auth_token_returns_first)

lemma get_auth_token_raises: "fst (get_auth_token w) = Inl e \<Longrightarrow> e = AttributeError"
  by (auto simp: get_auth_token_def post_auth_def emit_def
      split: option.splits prod.splits http_reply.splits sum.splits if_splits
      dest: dict_get_raises)

lemma get_auth_token_api_ok: "auth_api_ok w \<Longrightarrow> auth_api_ok (snd (get_auth_token w))"
  by (auto simp: get_auth_token_def post_auth_def emit_def auth_api_ok_def
      split: option.splits prod.splits http_reply.splits sum.splits if_splits)

lemma get_auth_token_posts:
  "count_list (trace (snd (get_auth_token w))) PostAuth =
   count_list (trace w) PostAuth + (if auth_token_storage w = None then 1 else 0)"
  by (auto simp: get_auth_token_def post_auth_def emit_def
      split: option.splits prod.splits http_reply.splits sum.splits)

subsection \<open>What \<open>Log\<close> changes and when it raises\<close>

lemma Log_world_frame [simp]:
  "url_db (Log_world s l p m w) = url_db w"
  "draws (Log_world s l p m w) = draws w"
  using get_auth_token_frame[of w]
  by (auto simp: Log_world_def Log_def post_log_def emit_def
      split: option.splits prod.splits http_reply.splits sum.splits)

lemma Log_raises: "fst (Log s l p m w) = Inl e \<Longrightarrow> e = AttributeError"
  using get_auth_token_raises[of w e]
  by (auto simp: Log_def post_log_def emit_def
      split: option.splits prod.splits http_reply.splits sum.splits if_splits)

lemma Log_api_ok: "auth_api_ok w \<Longrightarrow> Log s l p m w = (Inr (), Log_world s l p m w)"
  using get_auth_token_returns[of w]
  by (auto simp: Log_world_def Log_def post_log_def emit_def
      split: option.splits prod.splits http_reply.splits sum.splits if_splits)

lemma Log_cached:
  "auth_token_storage w = Some t \<Longrightarrow> Log s l p m w = (Inr (), Log_world s l p m w)"
  by (auto simp: Log_world_def Log_def post_log_def emit_def get_auth_token_cached
      split: option.splits prod.splits http_reply.splits sum.splits if_splits)

lemma Log_ok: "log_safe w \<Longrightarrow> Log s l p m w = (Inr (), Log_world s l p m w)"
  unfolding log_safe_def using Log_api_ok Log_cached by blast

lemma Log_world_api_ok: "auth_api_ok w \<Longrightarrow> auth_api_ok (Log_world s l p m w)"
  using get_auth_token_api_ok[of w]
  by (auto simp: Log_world_def Log_def post_log_def emit_def auth_api_ok_def
      split: option.splits prod.splits http_reply.splits sum.splits if_splits)

lemma Log_world_token_kept:
  "auth_token_storage w = Some t \<Longrightarrow> auth_token_storage (Log_world s l p m w) = Some t"
  by (auto simp: Log_world_def Log_def post_log_def emit_def get_auth_token_cached
      split: option.splits prod.splits http_reply.splits sum.splits if_splits)

lemma Log_world_no_auth_post:
  "auth_token_storage w = Some t \<Longrightarrow>
   count_list (trace (Log_world s l p m w)) PostAuth = count_list (trace w) PostAuth"
  by (auto simp: Log_world_def Log_def post_log_def emit_def get_auth_token_cached
      split: option.splits prod.splits http_reply.splits sum.splits if_splits)

lemma Log_world_log_safe [simp]: "log_safe w \<Longrightarrow> log_safe (Log_world s l p m w)"
  unfolding log_safe_def using Log_world_api_ok Log_world_token_kept by fastforce

lemma log_safe_update [simp]:
  "log_safe (w\<lparr>url_db := f\<rparr>) = log_safe w"
  "log_safe (w\<lparr>draws := g\<rparr>) = log_safe w"
  by (simp_all add: log_safe_def auth_api_ok_def)

lemma Log_worldD:
  "Log s l p m w = (r, w1) \<Longrightarrow> w1 = Log_world s l p m w \<and> (r = Inr () \<or> r = Inl AttributeError)"
  using Log_raises[of s l p m w] by (cases r) (auto simp: Log_world_def)

text \<open>
  Outside the one escape (a 2xx reply of the auth endpoint whose JSON body is not an
  object) every failure of the two endpoints ends in a printed line and a normal return.
\<close>

lemma Log_never_raises_on_object_replies:
  "log_safe w \<Longrightarrow> fst (Log s l p m w) = Inr ()"
  by (simp add: Log_ok)

text \<open>
  C7. The property: whatever the two endpoints do, \<^verbatim>\<open>Log\<close> only prints and never raises
  to its caller. The code breaks it in one case: when no token is cached and the auth
  endpoint answers with a success status and a JSON body that is not an object (here the
  array \<^verbatim>\<open>[]\<close>), \<^verbatim>\<open>token_data.get\<close> raises \<^verbatim>\<open>AttributeError\<close> inside the \<^verbatim>\<open>try\<close> block of
  \<^verbatim>\<open>get_auth_token\<close>, whose handler catches \<^verbatim>\<open>RequestException\<close> only; \<^verbatim>\<open>Log\<close> calls
  \<^verbatim>\<open>get_auth_token\<close> outside any \<^verbatim>\<open>try\<close>, so the exception reaches the caller of \<^verbatim>\<open>Log\<close>,
  here the health check.
\<close>

theorem Log_raises_on_array_reply:
  "fst (Log backend info route ''Health check endpoint was hit.'' array_reply_world)
     = Inl AttributeError \<and>
   fst (health_check array_reply_world) = Inl AttributeError"
  by (simp add: array_reply_world_def fresh_world_def health_check_def and_then_def Log_def
      get_auth_token_def post_auth_def emit_def raise_for_status_def)


section \<open>The redirect handler\<close>




text \<open>Whatever the logger does, the handler leaves the store as it was or removes an expired entry.\<close>

lemma redirect_store:
  "url_db (snd (redirect_to_long_url now code w)) = url_db w \<or>
   (\<exists>e. url_db w code = Some e \<and> expiry_utc e < now \<and>
        url_db (snd (redirect_to_long_url now code w)) = (url_db w)(code := None))"
  by (auto simp: redirect_to_long_url_def and_then_def raises_def returns_def
      split: prod.splits sum.splits option.splits dest!: Log_worldD)


lemma log_safe_offline: "log_safe offline_world" "log_safe stored_world"
  by (simp_all add: stored_world_def offline_world_def fresh_world_def log_safe_def
      auth_api_ok_def auth_reply_ok_def)






section \<open>The shortcode generator\<close>

lemma random_shortcode_frame [simp]:
  "url_db (snd (random_shortcode n w)) = url_db w"
  "draws (snd (random_shortcode n w)) = (\<lambda>i. draws w (i + n))"
  by (simp_all add: random_shortcode_def)

lemma fst_random_shortcode:
  "fst (random_shortcode n w) = map (\<lambda>i. secrets_choice chars (draws w i)) [0..<n]"
  by (simp add: random_shortcode_def)

lemma passes_0 [simp]: "passes n 0 w = w"
  by (simp add: passes_def)

lemma passes_Suc: "passes n (Suc k) w = passes n k (snd (random_shortcode n w))"
  unfolding passes_def funpow_Suc_right by simp

lemma passes_url_db [simp]: "url_db (passes n k w) = url_db w"
  by (induction k arbitrary: w) (simp_all add: passes_Suc)

lemma passes_draws: "draws (passes n k w) = (\<lambda>i. draws w (i + k * n))"
  by (induction k arbitrary: w) (simp_all add: passes_Suc ac_simps)

lemma nth_code_eq:
  "nth_code n w k = map (\<lambda>i. secrets_choice chars (draws w (i + k * n))) [0..<n]"
  by (simp add: nth_code_def passes_draws fst_random_shortcode)

lemma nth_code_Suc: "nth_code n w (Suc k) = nth_code n (snd (random_shortcode n w)) k"
  by (simp add: nth_code_def passes_Suc)

lemma length_chars: "length chars = 62"
  by (simp add: chars_def ascii_letters_def digits_def)

lemma secrets_choice_chars: "secrets_choice chars r \<in> set chars"
  unfolding secrets_choice_def by (rule nth_mem) (simp add: length_chars)

lemma length_nth_code [simp]: "length (nth_code n w k) = n"
  by (simp add: nth_code_eq)

lemma set_nth_code: "set (nth_code n w k) \<subseteq> set chars"
  by (auto simp: nth_code_eq secrets_choice_chars)

lemma loop_body_eq:
  "(case random_shortcode n w of
      (code, w1) \<Rightarrow>
        if url_db w1 code = None
        then Some (and_then
                     (Log backend debug service (''Generated shortcode '' @ quote code @ '' is unique.''))
                     (\<lambda>_. returns code) w1)
        else f n w1) =
   (if url_db w (nth_code n w 0) = None
    then Some (and_then
                 (Log backend debug service
                    (''Generated shortcode '' @ quote (nth_code n w 0) @ '' is unique.''))
                 (\<lambda>_. returns (nth_code n w 0)) (passes n (Suc 0) w))
    else f n (passes n (Suc 0) w))"
  by (simp add: case_prod_beta nth_code_def passes_def)

lemma generate_loop_unfold:
  "generate_loop n w =
   (if url_db w (nth_code n w 0) = None
    then Some (and_then
                 (Log backend debug service
                    (''Generated shortcode '' @ quote (nth_code n w 0) @ '' is unique.''))
                 (\<lambda>_. returns (nth_code n w 0)) (passes n (Suc 0) w))
    else generate_loop n (passes n (Suc 0) w))"
  by (subst generate_loop.simps) (rule loop_body_eq)

lemma passes_1: "passes n (Suc 0) w = snd (random_shortcode n w)"
  by (simp add: passes_def)

lemma generate_loop_SomeD:
  assumes "generate_loop n w = Some y"
  shows "\<exists>k. url_db w (nth_code n w k) = None \<and> (\<forall>j<k. url_db w (nth_code n w j) \<noteq> None) \<and>
       y = and_then
             (Log backend debug service
                (''Generated shortcode '' @ quote (nth_code n w k) @ '' is unique.''))
             (\<lambda>_. returns (nth_code n w k)) (passes n (Suc k) w)"
proof (rule generate_loop.raw_induct[OF _ assms], goal_cases)
  case (1 loop n w y)
  let ?w1 = "passes n (Suc 0) w"
  let ?exit = "\<lambda>w k. and_then
             (Log backend debug service
                (''Generated shortcode '' @ quote (nth_code n w k) @ '' is unique.''))
             (\<lambda>_. returns (nth_code n w k)) (passes n (Suc k) w)"
  from 1(2) have body:
    "(if url_db w (nth_code n w 0) = None then Some (?exit w 0) else loop n ?w1) = Some y"
    unfolding loop_body_eq .
  show ?case
  proof (cases "url_db w (nth_code n w 0) = None")
    case True
    with body have "y = ?exit w 0" by simp
    with True show ?thesis by (intro exI[of _ 0]) simp
  next
    case False
    with body have "loop n ?w1 = Some y" by simp
    from 1(1)[OF this] obtain k where k:
      "url_db ?w1 (nth_code n ?w1 k) = None" "\<forall>j<k. url_db ?w1 (nth_code n ?w1 j) \<noteq> None"
      "y = ?exit ?w1 k"
      by blast
    have "\<forall>j<Suc k. url_db w (nth_code n w j) \<noteq> None"
    proof (intro allI impI)
      fix j assume "j < Suc k"
      then show "url_db w (nth_code n w j) \<noteq> None"
        using False k(2) by (cases j) (auto simp: nth_code_Suc passes_1)
    qed
    moreover have "url_db w (nth_code n w (Suc k)) = None"
      using k(1) by (simp add: nth_code_Suc passes_1)
    moreover have "y = ?exit w (Suc k)"
      using k(3) by (simp add: nth_code_Suc passes_Suc[of n "Suc k"] passes_1)
    ultimately show ?thesis by blast
  qed
qed

lemma generate_loop_finds:
  "url_db w (nth_code n w k) = None \<Longrightarrow> \<forall>j<k. url_db w (nth_code n w j) \<noteq> None \<Longrightarrow>
   generate_loop n w =
     Some (and_then
             (Log backend debug service
                (''Generated shortcode '' @ quote (nth_code n w k) @ '' is unique.''))
             (\<lambda>_. returns (nth_code n w k)) (passes n (Suc k) w))"
proof (induction k arbitrary: w)
  case 0
  then show ?case
    by (subst generate_loop_unfold) simp
next
  case (Suc k)
  let ?w1 = "passes n (Suc 0) w"
  from Suc.prems(2) have taken: "url_db w (nth_code n w 0) \<noteq> None" by blast
  have "generate_loop n ?w1 =
     Some (and_then
             (Log backend debug service
                (''Generated shortcode '' @ quote (nth_code n ?w1 k) @ '' is unique.''))
             (\<lambda>_. returns (nth_code n ?w1 k)) (passes n (Suc k) ?w1))"
  proof (rule Suc.IH)
    show "url_db ?w1 (nth_code n ?w1 k) = None"
      using Suc.prems(1) by (simp add: nth_code_Suc passes_1)
    show "\<forall>j<k. url_db ?w1 (nth_code n ?w1 j) \<noteq> None"
      using Suc.prems(2) by (auto simp: nth_code_Suc[symmetric] passes_1)
  qed
  then have "generate_loop n ?w1 =
     Some (and_then
             (Log backend debug service
                (''Generated shortcode '' @ quote (nth_code n w (Suc k)) @ '' is unique.''))
             (\<lambda>_. returns (nth_code n w (Suc k))) (passes n (Suc (Suc k)) w))"
    by (simp add: nth_code_Suc passes_Suc[of n "Suc k"] passes_1)
  moreover from taken have "generate_loop n w = generate_loop n ?w1"
    by (subst generate_loop_unfold) (rule if_not_P)
  ultimately show ?case by simp
qed

lemma generate_loop_diverges:
  assumes "\<forall>k. url_db w (nth_code n w k) \<noteq> None"
  shows "generate_loop n w = None"
proof (cases "generate_loop n w")
  case None
  then show ?thesis .
next
  case (Some y)
  from generate_loop_SomeD[OF this] assms show ?thesis by blast
qed

lemma least_free:
  assumes "url_db w (nth_code n w k) = None"
  shows "\<exists>k'\<le>k. url_db w (nth_code n w k') = None \<and> (\<forall>j<k'. url_db w (nth_code n w j) \<noteq> None)"
proof -
  let ?P = "\<lambda>k. url_db w (nth_code n w k) = None"
  have "?P (LEAST k. ?P k)" using assms by (rule LeastI)
  moreover have "(LEAST k. ?P k) \<le> k" using assms by (rule Least_le)
  moreover have "\<forall>j<(LEAST k. ?P k). \<not> ?P j" using not_less_Least by blast
  ultimately show ?thesis by blast
qed



section \<open>The create handler\<close>

subsection \<open>What a run that ends can have done\<close>

lemma and_then_pE:
  assumes "and_then_p m f w = Some (r, w')"
  obtains (raised) e where "m w = Some (Inl e, w')" "r = Inl e"
        | (returned) x w1 where "m w = Some (Inr x, w1)" "f x w1 = Some (r, w')"
  using assms by (auto simp: and_then_p_def split: option.splits sum.splits prod.splits)

lemma and_thenE:
  assumes "and_then m f w = (r, w')"
  obtains (raised) e where "m w = (Inl e, w')" "r = Inl e"
        | (returned) x w1 where "m w = (Inr x, w1)" "f x w1 = (r, w')"
  using assms by (auto simp: and_then_def split: sum.splits prod.splits)

lemma total_LogD:
  "total (Log s l p m) w = Some (r, w1) \<Longrightarrow>
   w1 = Log_world s l p m w \<and> (r = Inr () \<or> r = Inl AttributeError)"
  by (simp add: total_def Log_worldD)

lemma loop_exit_cases:
  assumes "and_then (Log s l p m) (\<lambda>_. returns code) w = (r, w')"
  shows "w' = Log_world s l p m w \<and> (r = Inr code \<or> r = Inl AttributeError)"
  using assms by (auto elim!: and_thenE dest!: Log_worldD simp: returns_def)

lemma generate_unique_shortcode_SomeD:
  assumes "generate_unique_shortcode cfg w = Some (r, w')"
  shows "url_db w' = url_db w \<and> (\<forall>e. r = Inl e \<longrightarrow> e = AttributeError) \<and>
         (\<forall>code. r = Inr code \<longrightarrow>
            length code = SHORTCODE_LENGTH cfg \<and> set code \<subseteq> set chars \<and> url_db w code = None)"
proof -
  from assms show ?thesis
    unfolding generate_unique_shortcode_def
  proof (cases rule: and_then_pE)
    case (raised e)
    then show ?thesis by (auto dest!: total_LogD)
  next
    case (returned x w1)
    from returned(1) have w1: "url_db w1 = url_db w" by (auto dest!: total_LogD)
    from generate_loop_SomeD[OF returned(2)] obtain k where
      k: "url_db w1 (nth_code (SHORTCODE_LENGTH cfg) w1 k) = None"
      and y: "(r, w') = and_then
             (Log backend debug service
                (''Generated shortcode '' @ quote (nth_code (SHORTCODE_LENGTH cfg) w1 k) @ '' is unique.''))
             (\<lambda>_. returns (nth_code (SHORTCODE_LENGTH cfg) w1 k)) (passes (SHORTCODE_LENGTH cfg) (Suc k) w1)"
      by blast
    from loop_exit_cases[OF y[symmetric]] k w1
      set_nth_code[of "SHORTCODE_LENGTH cfg" w1 k] show ?thesis
      by auto
  qed
qed


lemma no_custom_shortcode_SomeD:
  assumes "no_custom_shortcode cfg w = Some (r, w')"
  shows "url_db w' = url_db w \<and> (\<forall>e. r = Inl e \<longrightarrow> e = AttributeError) \<and>
         (\<forall>code. r = Inr code \<longrightarrow>
            length code = SHORTCODE_LENGTH cfg \<and> set code \<subseteq> set chars \<and> url_db w code = None)"
  using assms unfolding no_custom_shortcode_def
proof (cases rule: and_then_pE)
  case (raised e)
  then show ?thesis by (auto dest!: total_LogD)
next
  case (returned x w1)
  from returned(1) have "url_db w1 = url_db w" by (auto dest!: total_LogD)
  with generate_unique_shortcode_SomeD[OF returned(2)] show ?thesis by simp
qed

lemma pick_shortcode_SomeD:
  assumes "pick_shortcode cfg rd w = Some (r, w')"
  shows "url_db w' = url_db w \<and> (\<forall>e. r = Inl e \<longrightarrow> e = AttributeError) \<and>
         (\<forall>code. r = Inr code \<longrightarrow>
            url_db w code = None \<and>
            (shortcode rd = Some code \<and> code \<noteq> [] \<or>
             length code = SHORTCODE_LENGTH cfg \<and> set code \<subseteq> set chars))"
proof (cases "shortcode rd")
  case None
  with assms no_custom_shortcode_SomeD[of cfg w r w'] show ?thesis
    by (simp add: pick_shortcode_def)
next
  case (Some c)
  show ?thesis
  proof (cases "c = []")
    case True
    with Some assms no_custom_shortcode_SomeD[of cfg w r w'] show ?thesis
      by (simp add: pick_shortcode_def)
  next
    case False
    with Some assms have
      "and_then_p
         (total (Log backend debug handler (''Custom shortcode '' @ quote c @ '' was provided.'')))
         (\<lambda>_ w. if url_db w c \<noteq> None
                 then and_then_p
                        (total (Log backend warn handler
                                  (''Custom shortcode '' @ quote c @
                                   '' is unavailable. Generating a new one.'')))
                        (\<lambda>_. generate_unique_shortcode cfg) w
                 else Some (returns c w)) w = Some (r, w')"
      by (simp add: pick_shortcode_def)
    then show ?thesis
    proof (cases rule: and_then_pE)
      case (raised e)
      then show ?thesis by (auto dest!: total_LogD)
    next
      case (returned x w1)
      from returned(1) have w1: "url_db w1 = url_db w" by (auto dest!: total_LogD)
      show ?thesis
      proof (cases "url_db w c = None")
        case True
        with returned(2) w1 Some False show ?thesis by (auto simp: returns_def)
      next
        case taken: False
        with returned(2) w1 have
          "and_then_p
             (total (Log backend warn handler
                       (''Custom shortcode '' @ quote c @ '' is unavailable. Generating a new one.'')))
             (\<lambda>_. generate_unique_shortcode cfg) w1 = Some (r, w')"
          by simp
        then show ?thesis
        proof (cases rule: and_then_pE)
          case (raised e)
          with w1 show ?thesis by (auto dest!: total_LogD)
        next
          case inner: (returned x w2)
          from inner(1) w1 have "url_db w2 = url_db w" by (auto dest!: total_LogD)
          with generate_unique_shortcode_SomeD[OF inner(2)] show ?thesis by simp
        qed
      qed
    qed
  qed
qed

lemma expiry_of_InrD:
  "expiry_of now minutes = Inr t \<Longrightarrow> t = now + minutes * 60000000 \<and> is_datetime t"
  by (auto simp: expiry_of_def timedelta_minutes_def datetime_add_def Let_def
      split: sum.splits if_splits)

lemma expiry_of_InlD: "expiry_of now minutes = Inl e \<Longrightarrow> e = OverflowError"
  by (auto simp: expiry_of_def timedelta_minutes_def datetime_add_def Let_def
      split: sum.splits if_splits)

lemma expiry_of_representable:
  assumes "is_datetime now" "is_datetime (now + minutes * 60000000)"
  shows "expiry_of now minutes = Inr (now + minutes * 60000000)"
  using assms
  by (auto simp: expiry_of_def timedelta_minutes_def datetime_add_def Let_def is_datetime_def
      datetime_max_def)

lemma store_mapping_cases:
  assumes "store_mapping cfg now rd code w = (r, w')"
  shows "(url_db w' = url_db w \<and> (r = Inl OverflowError \<or> r = Inl AttributeError)) \<or>
         (\<exists>t. expiry_of now (validity rd) = Inr t \<and>
              url_db w' = (url_db w)(code \<mapsto> \<lparr>long_url = url rd, expiry_utc = t\<rparr>) \<and>
              (r = Inl AttributeError \<or>
               r = Inr \<lparr>shortlink = BASE_SHORT_URL cfg @ ''/'' @ code, expiry = strftime t\<rparr>))"
  using assms
  by (auto simp: store_mapping_def returns_def elim!: and_thenE dest!: Log_worldD expiry_of_InlD)

lemma store_mapping_ok:
  assumes "log_safe w" "expiry_of now (validity rd) = Inr t"
  shows "fst (store_mapping cfg now rd code w) =
           Inr \<lparr>shortlink = BASE_SHORT_URL cfg @ ''/'' @ code, expiry = strftime t\<rparr>"
    and "url_db (snd (store_mapping cfg now rd code w)) =
           (url_db w)(code \<mapsto> \<lparr>long_url = url rd, expiry_utc = t\<rparr>)"
    and "log_safe (snd (store_mapping cfg now rd code w))"
  using assms by (simp_all add: store_mapping_def and_then_def returns_def Log_ok)

lemma store_mapping_overflow:
  assumes "log_safe w" "expiry_of now (validity rd) = Inl e"
  shows "store_mapping cfg now rd code w = (Inl e, w)"
  using assms by (simp add: store_mapping_def and_then_def)


lemma create_short_url_SomeD:
  assumes "create_short_url cfg now rd w = Some (r, w')"
  shows "(url_db w' = url_db w \<and> (r = Inl OverflowError \<or> r = Inl AttributeError)) \<or>
         (\<exists>code t. url_db w code = None \<and>
            (shortcode rd = Some code \<and> code \<noteq> [] \<or>
             length code = SHORTCODE_LENGTH cfg \<and> set code \<subseteq> set chars) \<and>
            expiry_of now (validity rd) = Inr t \<and>
            url_db w' = (url_db w)(code \<mapsto> \<lparr>long_url = url rd, expiry_utc = t\<rparr>) \<and>
            (r = Inl AttributeError \<or>
             r = Inr \<lparr>shortlink = BASE_SHORT_URL cfg @ ''/'' @ code, expiry = strftime t\<rparr>))"
  using assms unfolding create_short_url_def
proof (cases rule: and_then_pE)
  case (raised e)
  then show ?thesis by (auto dest!: total_LogD)
next
  case (returned x w1)
  from returned(1) have w1: "url_db w1 = url_db w" by (auto dest!: total_LogD)
  from returned(2) show ?thesis
  proof (cases rule: and_then_pE)
    case (raised e)
    from pick_shortcode_SomeD[OF raised(1)] w1 have "url_db w' = url_db w" by simp
    moreover from pick_shortcode_SomeD[OF raised(1)] have "e = AttributeError" by simp
    ultimately show ?thesis using raised(2) by simp
  next
    case picked: (returned code w2)
    from pick_shortcode_SomeD[OF picked(1)] w1 have
      w2: "url_db w2 = url_db w" and free: "url_db w code = None" and
      kind: "shortcode rd = Some code \<and> code \<noteq> [] \<or>
             length code = SHORTCODE_LENGTH cfg \<and> set code \<subseteq> set chars"
      by simp_all
    from picked(2) have "store_mapping cfg now rd code w2 = (r, w')"
      by (simp add: total_def)
    from store_mapping_cases[OF this] w2 free kind show ?thesis
      by auto
  qed
qed


subsection \<open>Runs in which the logger returns\<close>

lemma passes_eq: "passes n k w = w\<lparr>draws := (\<lambda>i. draws w (i + k * n))\<rparr>"
proof (induction k arbitrary: w)
  case 0
  show ?case by simp
next
  case (Suc k)
  show ?case
    by (simp add: passes_Suc Suc random_shortcode_def ac_simps)
qed

lemma passes_log_safe [simp]: "log_safe (passes n k w) = log_safe w"
  by (simp add: passes_eq)

lemma nth_code_cong: "draws w1 = draws w \<Longrightarrow> nth_code n w1 k = nth_code n w k"
  by (simp add: nth_code_eq)

lemma nth_code_Log_world [simp]: "nth_code n (Log_world s l p m w) k = nth_code n w k"
  by (rule nth_code_cong) simp

lemma generate_loop_ok:
  assumes "log_safe w" and "url_db w (nth_code n w k) = None"
  shows "\<exists>k'\<le>k. \<exists>w'. generate_loop n w = Some (Inr (nth_code n w k'), w') \<and>
           url_db w (nth_code n w k') = None \<and> url_db w' = url_db w \<and> log_safe w'"
proof -
  from least_free[OF assms(2)] obtain k' where k': "k' \<le> k"
    "url_db w (nth_code n w k') = None" "\<forall>j<k'. url_db w (nth_code n w j) \<noteq> None"
    by blast
  from generate_loop_finds[OF k'(2,3)] assms(1) k'(1,2) show ?thesis
    by (intro exI[of _ k'] exI[of _ "Log_world backend debug service
                (''Generated shortcode '' @ quote (nth_code n w k') @ '' is unique.'')
                (passes n (Suc k') w)"])
       (simp add: and_then_def Log_ok returns_def)
qed

lemma generate_unique_shortcode_ok:
  assumes "log_safe w" and "url_db w (nth_code (SHORTCODE_LENGTH cfg) w k) = None"
  shows "\<exists>k'\<le>k. \<exists>w'. generate_unique_shortcode cfg w =
             Some (Inr (nth_code (SHORTCODE_LENGTH cfg) w k'), w') \<and>
           url_db w (nth_code (SHORTCODE_LENGTH cfg) w k') = None \<and>
           url_db w' = url_db w \<and> log_safe w'"
proof -
  let ?w1 = "Log_world backend info service ''Generating a new unique shortcode.'' w"
  from assms have "log_safe ?w1" "url_db ?w1 (nth_code (SHORTCODE_LENGTH cfg) ?w1 k) = None"
    by simp_all
  from generate_loop_ok[OF this] assms(1) show ?thesis
    by (simp add: generate_unique_shortcode_def and_then_p_def total_def Log_ok)
qed

lemma no_custom_shortcode_ok:
  assumes "log_safe w" and "url_db w (nth_code (SHORTCODE_LENGTH cfg) w k) = None"
  shows "\<exists>k'\<le>k. \<exists>w'. no_custom_shortcode cfg w =
             Some (Inr (nth_code (SHORTCODE_LENGTH cfg) w k'), w') \<and>
           url_db w (nth_code (SHORTCODE_LENGTH cfg) w k') = None \<and>
           url_db w' = url_db w \<and> log_safe w'"
proof -
  let ?w1 = "Log_world backend debug handler ''No custom shortcode provided. Generating a new one.'' w"
  from assms have "log_safe ?w1" "url_db ?w1 (nth_code (SHORTCODE_LENGTH cfg) ?w1 k) = None"
    by simp_all
  from generate_unique_shortcode_ok[OF this] assms(1) show ?thesis
    by (simp add: no_custom_shortcode_def and_then_p_def total_def Log_ok)
qed

lemma pick_shortcode_custom_free:
  assumes "log_safe w" and "shortcode rd = Some c" and "c \<noteq> []" and "url_db w c = None"
  shows "\<exists>w'. pick_shortcode cfg rd w = Some (Inr c, w') \<and> url_db w' = url_db w \<and> log_safe w'"
  using assms
  by (simp add: pick_shortcode_def and_then_p_def total_def Log_ok returns_def)

lemma pick_shortcode_generated:
  assumes "log_safe w" and "shortcode rd = None \<or> shortcode rd = Some [] \<or>
                            (\<exists>c. shortcode rd = Some c \<and> url_db w c \<noteq> None)"
    and "url_db w (nth_code (SHORTCODE_LENGTH cfg) w k) = None"
  shows "\<exists>k'\<le>k. \<exists>w'. pick_shortcode cfg rd w =
             Some (Inr (nth_code (SHORTCODE_LENGTH cfg) w k'), w') \<and>
           url_db w (nth_code (SHORTCODE_LENGTH cfg) w k') = None \<and>
           url_db w' = url_db w \<and> log_safe w'"
proof (cases "shortcode rd = None \<or> shortcode rd = Some []")
  case True
  with no_custom_shortcode_ok[OF assms(1,3)] show ?thesis
    by (auto simp: pick_shortcode_def)
next
  case False
  with assms(2) obtain c where c: "shortcode rd = Some c" "c \<noteq> []" "url_db w c \<noteq> None"
    by auto
  let ?w1 = "Log_world backend debug handler (''Custom shortcode '' @ quote c @ '' was provided.'') w"
  let ?w2 = "Log_world backend warn handler
           (''Custom shortcode '' @ quote c @ '' is unavailable. Generating a new one.'') ?w1"
  from assms have "log_safe ?w2" "url_db ?w2 (nth_code (SHORTCODE_LENGTH cfg) ?w2 k) = None"
    by simp_all
  from generate_unique_shortcode_ok[OF this] assms(1) c show ?thesis
    by (simp add: pick_shortcode_def and_then_p_def total_def Log_ok)
qed

lemma create_short_url_ok:
  assumes "log_safe w"
    and "pick_shortcode cfg rd (Log_world backend info handler
            (''Received request to shorten URL: '' @ url rd) w) = Some (Inr code, w1)"
    and "log_safe w1"
    and "expiry_of now (validity rd) = Inr t"
  shows "create_short_url cfg now rd w =
           Some (Inr \<lparr>shortlink = BASE_SHORT_URL cfg @ ''/'' @ code, expiry = strftime t\<rparr>,
                 snd (store_mapping cfg now rd code w1))"
  using assms store_mapping_ok(1)[OF assms(3,4), of cfg code]
  by (simp add: create_short_url_def and_then_p_def total_def Log_ok prod_eq_iff)

subsection \<open>Every handler changes the state by the known writes only\<close>

lemma evolves_trans: "evolves b c \<Longrightarrow> evolves a b \<Longrightarrow> evolves a c"
  by (induction rule: evolves.induct) (auto intro: evolves.intros)

lemma keeps_Log: "keeps (Log s l p m)"
  by (simp add: keeps_def Log_world_def[symmetric] evolves.intros)

lemma keeps_returns: "keeps (returns x)"
  by (simp add: keeps_def returns_def evolves.same)

lemma keeps_raises: "keeps (raises e)"
  by (simp add: keeps_def raises_def evolves.same)

lemma keeps_pure: "keeps (\<lambda>w. (x, w))"
  by (simp add: keeps_def evolves.same)

lemma keeps_store: "keeps (\<lambda>w. returns x (w\<lparr>url_db := f w\<rparr>))"
  by (simp add: keeps_def returns_def evolves.intros)

lemma keeps_and_then:
  assumes "keeps m" and "\<And>x. keeps (f x)"
  shows "keeps (and_then m f)"
  unfolding keeps_def
proof
  fix w
  obtain r w1 where mw: "m w = (r, w1)" by (cases "m w")
  with assms(1) have w1: "evolves w w1" by (auto simp: keeps_def dest: spec[of _ w])
  show "evolves w (snd (and_then m f w))"
  proof (cases r)
    case (Inl e)
    with mw w1 show ?thesis by (simp add: and_then_def)
  next
    case (Inr x)
    from assms(2)[of x] have "evolves w1 (snd (f x w1))" by (simp add: keeps_def)
    with w1 have "evolves w (snd (f x w1))" by (rule evolves_trans[rotated])
    with mw Inr show ?thesis by (simp add: and_then_def)
  qed
qed

lemma keeps_if: "keeps f \<Longrightarrow> keeps g \<Longrightarrow> keeps (\<lambda>w. if c w then f w else g w)"
  by (simp add: keeps_def)

lemma keeps_case_option:
  "keeps f \<Longrightarrow> (\<And>x. keeps (g x)) \<Longrightarrow> keeps (\<lambda>w. case sel w of None \<Rightarrow> f w | Some x \<Rightarrow> g x w)"
  by (simp add: keeps_def split: option.splits)

lemma keeps_redirect: "keeps (redirect_to_long_url now code)"
  unfolding redirect_to_long_url_def
  by (intro keeps_and_then keeps_Log keeps_case_option keeps_if keeps_raises keeps_returns
      keeps_store)

lemma keeps_health_check: "keeps health_check"
  unfolding health_check_def by (intro keeps_and_then keeps_Log keeps_returns)

lemma keeps_store_mapping: "keeps (store_mapping cfg now rd code)"
  unfolding store_mapping_def
  by (intro keeps_and_then keeps_Log keeps_returns keeps_store keeps_pure)

lemma keeps_p_total: "keeps m \<Longrightarrow> keeps_p (total m)"
  by (simp add: keeps_def keeps_p_def total_def case_prod_beta)

lemma keeps_pD: "keeps_p m \<Longrightarrow> m w = Some (r, w1) \<Longrightarrow> evolves w w1"
  by (auto simp: keeps_p_def dest!: spec[of _ w])

lemma keeps_pI: "(\<And>w r w1. m w = Some (r, w1) \<Longrightarrow> evolves w w1) \<Longrightarrow> keeps_p m"
  by (auto simp: keeps_p_def split: option.splits)

lemma keeps_p_and_then_p:
  assumes "keeps_p m" and "\<And>x. keeps_p (f x)"
  shows "keeps_p (and_then_p m f)"
proof (rule keeps_pI)
  fix w r w'
  assume "and_then_p m f w = Some (r, w')"
  then show "evolves w w'"
  proof (cases rule: and_then_pE)
    case (raised e)
    with assms(1) show ?thesis by (auto dest: keeps_pD)
  next
    case (returned x w1)
    from keeps_pD[OF assms(1) returned(1)] keeps_pD[OF assms(2) returned(2)]
    show ?thesis by (rule evolves_trans[rotated])
  qed
qed

lemma keeps_p_if: "keeps_p f \<Longrightarrow> keeps_p g \<Longrightarrow> keeps_p (\<lambda>w. if c w then f w else g w)"
  by (simp add: keeps_p_def)

lemma keeps_p_generate_loop: "keeps_p (generate_loop n)"
proof (rule keeps_pI)
  fix w r w'
  assume "generate_loop n w = Some (r, w')"
  from generate_loop_SomeD[OF this] obtain k where
    "and_then
       (Log backend debug service
          (''Generated shortcode '' @ quote (nth_code n w k) @ '' is unique.''))
       (\<lambda>_. returns (nth_code n w k)) (passes n (Suc k) w) = (r, w')"
    by metis
  from loop_exit_cases[OF this] show "evolves w w'"
    by (simp add: passes_eq evolves.intros)
qed

lemma keeps_p_generate_unique_shortcode: "keeps_p (generate_unique_shortcode cfg)"
  unfolding generate_unique_shortcode_def
  by (intro keeps_p_and_then_p keeps_p_total keeps_Log keeps_p_generate_loop)

lemma keeps_p_pick_shortcode: "keeps_p (pick_shortcode cfg rd)"
  unfolding pick_shortcode_def no_custom_shortcode_def
  apply (cases "shortcode rd")
   apply simp
   apply (intro keeps_p_and_then_p keeps_p_total keeps_Log keeps_p_generate_unique_shortcode)
  apply simp
  apply (intro conjI impI keeps_p_and_then_p keeps_p_total keeps_Log keeps_p_generate_unique_shortcode keeps_p_if)
  apply (rule keeps_pI)
  apply (simp add: returns_def evolves.same)
  done

lemma keeps_p_create_short_url: "keeps_p (create_short_url cfg now rd)"
  unfolding create_short_url_def
  by (intro keeps_p_and_then_p keeps_p_total keeps_Log keeps_p_pick_shortcode keeps_store_mapping)

lemma create_short_url_evolves: "create_short_url cfg now rd w = Some (r, w') \<Longrightarrow> evolves w w'"
  using keeps_p_create_short_url by (rule keeps_pD)

lemma serve_evolves: "serve cfg rq w = Some w' \<Longrightarrow> evolves w w'"
proof (cases rq)
  case (POST_shorturls now rd)
  assume "serve cfg rq w = Some w'"
  with POST_shorturls show ?thesis
    by (auto dest: create_short_url_evolves)
next
  case (GET_shortcode now code)
  assume "serve cfg rq w = Some w'"
  with GET_shortcode keeps_redirect[of now code] show ?thesis by (auto simp: keeps_def)
next
  case GET_root
  assume "serve cfg rq w = Some w'"
  with GET_root keeps_health_check show ?thesis by (auto simp: keeps_def)
qed


lemma evolves_token:
  "evolves w w' \<Longrightarrow> auth_token_storage w = Some t \<Longrightarrow>
   auth_token_storage w' = Some t \<and> count_list (trace w') PostAuth = count_list (trace w) PostAuth"
  by (induction rule: evolves.induct) (simp_all add: Log_world_token_kept Log_world_no_auth_post)

section \<open>The properties of the handlers\<close>

lemma nth_code_offline: "nth_code 6 offline_world 0 = ''abcdef''"
  by (simp add: nth_code_eq offline_world_def fresh_world_def secrets_choice_def chars_def
      ascii_letters_def digits_def upt_conv_Cons)

text \<open>
  C5. Every shortcode that \<open>generate_unique_shortcode\<close> returns has the configured
  length, consists of ASCII letters and digits only, and is not a key of the store, neither
  when it is drawn and tested nor when the function returns. The function does return
  such a code as soon as some pass of its loop draws a code that is not in the store (in a
  state in which the calls of \<open>Log\<close> return).
\<close>

theorem generated_shortcode_properties:
  "(generate_unique_shortcode cfg w = Some (Inr code, w') \<longrightarrow>
      length code = SHORTCODE_LENGTH cfg \<and> set code \<subseteq> set (ascii_letters @ digits) \<and>
      url_db w code = None \<and> url_db w' = url_db w) \<and>
   (log_safe w \<and> url_db w (nth_code (SHORTCODE_LENGTH cfg) w k) = None \<longrightarrow>
      (\<exists>code w'. generate_unique_shortcode cfg w = Some (Inr code, w')))"
proof (rule conjI; rule impI)
  assume "generate_unique_shortcode cfg w = Some (Inr code, w')"
  from generate_unique_shortcode_SomeD[OF this]
  show "length code = SHORTCODE_LENGTH cfg \<and> set code \<subseteq> set (ascii_letters @ digits) \<and>
      url_db w code = None \<and> url_db w' = url_db w"
    by (simp add: chars_def)
next
  assume "log_safe w \<and> url_db w (nth_code (SHORTCODE_LENGTH cfg) w k) = None"
  then have "log_safe w" "url_db w (nth_code (SHORTCODE_LENGTH cfg) w k) = None" by simp_all
  from generate_unique_shortcode_ok[OF this]
  show "\<exists>code w'. generate_unique_shortcode cfg w = Some (Inr code, w')" by blast
qed

theorem generated_shortcode_properties_witness:
  "\<exists>w'. log_safe offline_world \<and>
        url_db offline_world (nth_code (SHORTCODE_LENGTH example_config) offline_world 0) = None \<and>
        generate_unique_shortcode example_config offline_world = Some (Inr ''abcdef'', w') \<and>
        length ''abcdef'' = SHORTCODE_LENGTH example_config \<and>
        set ''abcdef'' \<subseteq> set (ascii_letters @ digits) \<and>
        url_db offline_world ''abcdef'' = None \<and> url_db w' = url_db offline_world"
proof -
  have free: "url_db offline_world (nth_code (SHORTCODE_LENGTH example_config) offline_world 0) = None"
    by (simp add: offline_world_def fresh_world_def)
  from generated_shortcode_properties[of example_config offline_world _ _ 0]
    log_safe_offline(1) free
  obtain code w' where
    run: "generate_unique_shortcode example_config offline_world = Some (Inr code, w')"
    by blast
  from generate_unique_shortcode_ok[OF log_safe_offline(1) free] run
  have "code = ''abcdef''"
    using nth_code_offline by (auto simp: example_config_def)
  with run generated_shortcode_properties[of example_config offline_world "''abcdef''" w' 0]
    log_safe_offline(1) free
  show ?thesis by blast
qed



lemma create_short_url_ok_ex:
  assumes "log_safe w" and "pick_shortcode cfg rd w1 = Some (Inr code, w2)"
    and "w1 = Log_world backend info handler (''Received request to shorten URL: '' @ url rd) w"
    and "log_safe w2" and "url_db w2 = url_db w"
    and "is_datetime now" and "is_datetime (now + validity rd * 60000000)"
  shows "\<exists>w'. create_short_url cfg now rd w =
           Some (Inr \<lparr>shortlink = BASE_SHORT_URL cfg @ ''/'' @ code,
                      expiry = strftime (now + validity rd * 60000000)\<rparr>, w') \<and>
          url_db w' = (url_db w)(code \<mapsto> \<lparr>long_url = url rd,
                                           expiry_utc = now + validity rd * 60000000\<rparr>) \<and>
          log_safe w'"
proof -
  note t = expiry_of_representable[OF assms(6,7)]
  from create_short_url_ok[OF assms(1) assms(2)[unfolded assms(3)] assms(4) t]
    store_mapping_ok(2,3)[OF assms(4) t, of cfg code] assms(5)
  show ?thesis by simp
qed

lemma create_short_url_overflow:
  assumes "log_safe w" and "pick_shortcode cfg rd w1 = Some (Inr code, w2)"
    and "w1 = Log_world backend info handler (''Received request to shorten URL: '' @ url rd) w"
    and "log_safe w2" and "expiry_of now (validity rd) = Inl e"
  shows "create_short_url cfg now rd w = Some (Inl e, w2)"
  using assms store_mapping_overflow[OF assms(4,5), of cfg code]
  by (simp add: create_short_url_def and_then_p_def total_def Log_ok)


lemma is_datetime_example: "is_datetime 63929304000000000" "is_datetime 63929304060000000"
  by (simp_all add: is_datetime_def datetime_max_def)






subsection \<open>The store across requests\<close>

lemma serve_all_evolves: "serve_all cfg rqs w = Some w' \<Longrightarrow> evolves w w'"
proof (induction rqs arbitrary: w)
  case Nil
  then show ?case by (simp add: evolves.same)
next
  case (Cons rq rqs)
  from Cons.prems obtain w1 where
    "serve cfg rq w = Some w1" "serve_all cfg rqs w1 = Some w'"
    by (auto split: option.splits)
  with Cons.IH[of w1] show ?case by (auto dest: serve_evolves intro: evolves_trans)
qed

lemma health_check_store: "url_db (snd (health_check w)) = url_db w"
  by (auto simp: health_check_def and_then_def returns_def split: prod.splits sum.splits
      dest!: Log_worldD)

lemma serve_store_change:
  assumes "serve cfg rq w = Some w'"
  shows "url_db w' k = url_db w k \<or>
         (url_db w k = None \<and>
          (\<exists>now rd. rq = POST_shorturls now rd \<and>
             url_db w' k = Some \<lparr>long_url = url rd,
                                 expiry_utc = now + validity rd * 60000000\<rparr>)) \<or>
         (\<exists>e now. url_db w k = Some e \<and> url_db w' k = None \<and>
                  rq = GET_shortcode now k \<and> expiry_utc e < now)"
proof (cases rq)
  case (POST_shorturls now rd)
  with assms obtain r where "create_short_url cfg now rd w = Some (r, w')"
    by auto
  from create_short_url_SomeD[OF this] have
    "url_db w' = url_db w \<or>
     (\<exists>code. url_db w code = None \<and>
        url_db w' = (url_db w)(code \<mapsto> \<lparr>long_url = url rd,
                                         expiry_utc = now + validity rd * 60000000\<rparr>))"
    by (auto dest!: expiry_of_InrD)
  then show ?thesis
  proof
    assume "url_db w' = url_db w"
    then show ?thesis by simp
  next
    assume "\<exists>code. url_db w code = None \<and>
        url_db w' = (url_db w)(code \<mapsto> \<lparr>long_url = url rd,
                                         expiry_utc = now + validity rd * 60000000\<rparr>)"
    then obtain code where "url_db w code = None"
      "url_db w' = (url_db w)(code \<mapsto> \<lparr>long_url = url rd,
                                         expiry_utc = now + validity rd * 60000000\<rparr>)"
      by blast
    with POST_shorturls show ?thesis by (cases "k = code") simp_all
  qed
next
  case (GET_shortcode now code)
  with assms have "w' = snd (redirect_to_long_url now code w)" by simp
  with redirect_store[of now code w] GET_shortcode show ?thesis
    by (cases "k = code") auto
next
  case GET_root
  with assms health_check_store[of w] show ?thesis by auto
qed

lemma serve_all_entry:
  assumes "serve_all cfg rqs w = Some w'" and "url_db w k = Some e"
  shows "url_db w' k = Some e \<or> (\<exists>now. GET_shortcode now k \<in> set rqs \<and> expiry_utc e < now)"
  using assms
proof (induction rqs arbitrary: w)
  case Nil
  then show ?case by simp
next
  case (Cons rq rqs)
  from Cons.prems(1) obtain w1 where
    w1: "serve cfg rq w = Some w1" and rest: "serve_all cfg rqs w1 = Some w'"
    by (auto split: option.splits)
  from serve_store_change[OF w1, of k] Cons.prems(2)
  consider "url_db w1 k = Some e" | now where "rq = GET_shortcode now k" "expiry_utc e < now"
    by auto
  then show ?case
  proof cases
    case 1
    from Cons.IH[OF rest 1] show ?thesis by auto
  next
    case 2
    then show ?thesis by auto
  qed
qed




subsection \<open>Requests whose shortcode is generated\<close>

lemma create_short_url_generated:
  assumes "log_safe w"
    and "shortcode rd = None \<or> shortcode rd = Some [] \<or>
         (\<exists>c. shortcode rd = Some c \<and> url_db w c \<noteq> None)"
    and "url_db w (nth_code (SHORTCODE_LENGTH cfg) w k) = None"
  shows "\<exists>k'\<le>k. \<exists>w2. url_db w (nth_code (SHORTCODE_LENGTH cfg) w k') = None \<and>
           log_safe w2 \<and> url_db w2 = url_db w \<and>
           (\<forall>t. expiry_of now (validity rd) = Inr t \<longrightarrow>
              create_short_url cfg now rd w =
                Some (Inr \<lparr>shortlink = BASE_SHORT_URL cfg @ ''/'' @
                                        nth_code (SHORTCODE_LENGTH cfg) w k',
                           expiry = strftime t\<rparr>,
                      snd (store_mapping cfg now rd (nth_code (SHORTCODE_LENGTH cfg) w k') w2))) \<and>
           (\<forall>e. expiry_of now (validity rd) = Inl e \<longrightarrow>
              create_short_url cfg now rd w = Some (Inl e, w2))"
proof -
  let ?w1 = "Log_world backend info handler (''Received request to shorten URL: '' @ url rd) w"
  have "log_safe ?w1" using assms(1) by simp
  moreover have "shortcode rd = None \<or> shortcode rd = Some [] \<or>
         (\<exists>c. shortcode rd = Some c \<and> url_db ?w1 c \<noteq> None)"
    using assms(2) by simp
  moreover have "url_db ?w1 (nth_code (SHORTCODE_LENGTH cfg) ?w1 k) = None"
    using assms(3) by simp
  ultimately obtain k' w2 where k': "k' \<le> k"
    and pick: "pick_shortcode cfg rd ?w1 = Some (Inr (nth_code (SHORTCODE_LENGTH cfg) w k'), w2)"
    and free: "url_db w (nth_code (SHORTCODE_LENGTH cfg) w k') = None"
    and w2: "url_db w2 = url_db w" "log_safe w2"
    using pick_shortcode_generated[of ?w1 rd cfg k] by auto
  show ?thesis
  proof (intro exI[of _ k'] exI[of _ w2] conjI allI impI)
    show "k' \<le> k" by (rule k')
    show "url_db w (nth_code (SHORTCODE_LENGTH cfg) w k') = None" by (rule free)
    show "log_safe w2" "url_db w2 = url_db w" by (rule w2)+
  next
    fix t assume "expiry_of now (validity rd) = Inr t"
    from create_short_url_ok[OF assms(1) pick w2(2) this]
    show "create_short_url cfg now rd w =
                Some (Inr \<lparr>shortlink = BASE_SHORT_URL cfg @ ''/'' @
                                        nth_code (SHORTCODE_LENGTH cfg) w k',
                           expiry = strftime t\<rparr>,
                      snd (store_mapping cfg now rd (nth_code (SHORTCODE_LENGTH cfg) w k') w2))" .
  next
    fix e assume "expiry_of now (validity rd) = Inl e"
    from create_short_url_overflow[OF assms(1) pick refl w2(2) this]
    show "create_short_url cfg now rd w = Some (Inl e, w2)" .
  qed
qed

lemma nth_code_stored: "nth_code 6 stored_world 0 = ''abcdef''"
  by (simp add: nth_code_eq stored_world_def offline_world_def fresh_world_def secrets_choice_def
      chars_def ascii_letters_def digits_def upt_conv_Cons)

lemma stored_world_facts:
  "url_db stored_world ''abcd'' =
     Some \<lparr>long_url = ''https://example.com/page'', expiry_utc = 63929304060000000\<rparr>"
  "url_db stored_world ''abcdef'' = None"
  by (simp_all add: stored_world_def)




text \<open>
  C9. What one request can do to the store, key by key: leave the key as it is; or, for a
  key that was absent, insert the entry of a create request (its URL and the creation time
  plus its validity); or, for a key that was present, remove it in an access to that key
  after its expiry. So no request changes the URL or the expiry of an existing entry, the
  create handler writes under absent keys only, and the only removal is the eviction on an
  access after expiry. Over any sequence of requests an entry therefore stays exactly as
  it was stored unless one of the requests was an access to its key after its expiry. This
  holds whatever the logger does.
\<close>

theorem stored_entries_are_never_mutated:
  "(serve cfg rq w = Some w1 \<longrightarrow>
      url_db w1 k = url_db w k \<or>
      (url_db w k = None \<and>
       (\<exists>now rd. rq = POST_shorturls now rd \<and>
          url_db w1 k = Some \<lparr>long_url = url rd,
                              expiry_utc = now + validity rd * 60000000\<rparr>)) \<or>
      (\<exists>e now. url_db w k = Some e \<and> url_db w1 k = None \<and>
               rq = GET_shortcode now k \<and> expiry_utc e < now)) \<and>
   (serve_all cfg rqs w = Some w' \<and> url_db w k = Some e \<longrightarrow>
      url_db w' k = Some e \<or> (\<exists>now. GET_shortcode now k \<in> set rqs \<and> expiry_utc e < now))"
  using serve_store_change[of cfg rq w w1 k] serve_all_entry[of cfg rqs w w' k e]
  by blast

theorem stored_entries_are_never_mutated_witness:
  "\<exists>w1 w'.
     serve example_config (POST_shorturls 63929304000000000 example_request) stored_world =
       Some w1 \<and>
     url_db w1 ''abcd'' = url_db stored_world ''abcd'' \<and>
     serve_all example_config
       [POST_shorturls 63929304000000000 example_request,
        GET_shortcode 63929304000000001 ''abcd'', GET_root] stored_world = Some w' \<and>
     url_db stored_world ''abcd'' =
       Some \<lparr>long_url = ''https://example.com/page'', expiry_utc = 63929304060000000\<rparr> \<and>
     url_db w' ''abcd'' =
       Some \<lparr>long_url = ''https://example.com/page'', expiry_utc = 63929304060000000\<rparr>"
proof -
  let ?e = "\<lparr>long_url = ''https://example.com/page'', expiry_utc = 63929304060000000\<rparr>"
  let ?rqs = "[POST_shorturls 63929304000000000 example_request,
        GET_shortcode 63929304000000001 ''abcd'', GET_root]"
  have "shortcode example_request = None \<or> shortcode example_request = Some [] \<or>
         (\<exists>c. shortcode example_request = Some c \<and> url_db stored_world c \<noteq> None)"
    by (simp add: example_request_def stored_world_facts)
  moreover have
    "url_db stored_world (nth_code (SHORTCODE_LENGTH example_config) stored_world 0) = None"
    by (simp add: example_config_def nth_code_stored stored_world_facts)
  moreover have "\<exists>t. expiry_of 63929304000000000 (validity example_request) = Inr t"
    using expiry_of_representable[of 63929304000000000 "validity example_request"]
    by (simp add: example_request_def is_datetime_example)
  ultimately obtain r w1 where
    "create_short_url example_config 63929304000000000 example_request stored_world = Some (r, w1)"
    using create_short_url_generated[OF log_safe_offline(2), of example_request example_config 0
        63929304000000000]
    by auto
  then have s1: "serve example_config (POST_shorturls 63929304000000000 example_request)
                   stored_world = Some w1"
    by simp
  define w' where
    "w' = snd (health_check (snd (redirect_to_long_url 63929304000000001 ''abcd'' w1)))"
  have all: "serve_all example_config ?rqs stored_world = Some w'"
    unfolding w'_def by (subst serve_all.simps(2), subst s1) simp
  from stored_entries_are_never_mutated[of example_config
      "POST_shorturls 63929304000000000 example_request" stored_world w1 "''abcd''" ?rqs w' ?e]
    s1 all
  have "url_db w1 ''abcd'' = url_db stored_world ''abcd''" "url_db w' ''abcd'' = Some ?e"
    by (auto simp: stored_world_facts)
  with s1 all show ?thesis
    by (intro exI[of _ w1] exI[of _ w']) (simp add: stored_world_facts)
qed

text \<open>
  C8. With a token cached, \<open>get_auth_token\<close> returns that token and does nothing else:
  the state, and with it the record of requests sent, is unchanged. Any call sends exactly
  one request to the auth endpoint when no token is cached and none when one is. A token
  that a call obtains is cached by that call. And once a token is cached, it stays the
  cached token and no request goes to the auth endpoint again, through any sequence of
  requests to the service.
\<close>

theorem cached_token_is_never_refetched:
  "(auth_token_storage w = Some t \<longrightarrow> get_auth_token w = (Inr t, w)) \<and>
   count_list (trace (snd (get_auth_token w))) PostAuth =
     count_list (trace w) PostAuth + (if auth_token_storage w = None then 1 else 0) \<and>
   (truthy t \<and> fst (get_auth_token w) = Inr t \<longrightarrow>
      auth_token_storage (snd (get_auth_token w)) = Some t) \<and>
   (auth_token_storage w = Some t \<and> serve_all cfg rqs w = Some w' \<longrightarrow>
      auth_token_storage w' = Some t \<and>
      count_list (trace w') PostAuth = count_list (trace w) PostAuth)"
proof (intro conjI impI)
  assume "auth_token_storage w = Some t"
  then show "get_auth_token w = (Inr t, w)" by (rule get_auth_token_cached)
next
  show "count_list (trace (snd (get_auth_token w))) PostAuth =
     count_list (trace w) PostAuth + (if auth_token_storage w = None then 1 else 0)"
    by (rule get_auth_token_posts)
next
  assume "truthy t \<and> fst (get_auth_token w) = Inr t"
  then show "auth_token_storage (snd (get_auth_token w)) = Some t"
    by (auto simp: get_auth_token_def post_auth_def emit_def
        split: option.splits prod.splits http_reply.splits sum.splits if_splits)
next
  assume a: "auth_token_storage w = Some t \<and> serve_all cfg rqs w = Some w'"
  then have "evolves w w'" by (auto intro: serve_all_evolves)
  with a show "auth_token_storage w' = Some t" by (auto dest: evolves_token)
next
  assume a: "auth_token_storage w = Some t \<and> serve_all cfg rqs w = Some w'"
  then have "evolves w w'" by (auto intro: serve_all_evolves)
  with a show "count_list (trace w') PostAuth = count_list (trace w) PostAuth"
    by (auto dest: evolves_token)
qed

theorem cached_token_is_never_refetched_witness:
  "\<exists>w'. auth_token_storage online_world = None \<and>
        fst (get_auth_token online_world) = Inr (JString ''tok'') \<and>
        auth_token_storage (snd (get_auth_token online_world)) = Some (JString ''tok'') \<and>
        count_list (trace (snd (get_auth_token online_world))) PostAuth = 1 \<and>
        get_auth_token (snd (get_auth_token online_world)) =
          (Inr (JString ''tok''), snd (get_auth_token online_world)) \<and>
        serve_all example_config [GET_root, GET_shortcode 63929304000000000 ''zzzz'']
          (snd (get_auth_token online_world)) = Some w' \<and>
        auth_token_storage w' = Some (JString ''tok'') \<and>
        count_list (trace w') PostAuth = 1"
proof -
  let ?w1 = "snd (get_auth_token online_world)"
  let ?rqs = "[GET_root, GET_shortcode 63929304000000000 ''zzzz'']"
  have start: "auth_token_storage online_world = None" "trace online_world = []"
    by (simp_all add: online_world_def fresh_world_def)
  have first: "fst (get_auth_token online_world) = Inr (JString ''tok'')"
    by (simp add: get_auth_token_def online_world_def fresh_world_def post_auth_def emit_def
        raise_for_status_def)
  from cached_token_is_never_refetched[of online_world "JString ''tok''"] first start
  have cached: "auth_token_storage ?w1 = Some (JString ''tok'')"
    and posts: "count_list (trace ?w1) PostAuth = 1"
    by simp_all
  define w' where
    "w' = snd (redirect_to_long_url 63929304000000000 ''zzzz'' (snd (health_check ?w1)))"
  have all: "serve_all example_config ?rqs ?w1 = Some w'"
    by (simp add: w'_def)
  from cached_token_is_never_refetched[of ?w1 "JString ''tok''" example_config ?rqs w']
    cached all posts
  have "get_auth_token ?w1 = (Inr (JString ''tok''), ?w1)"
    "auth_token_storage w' = Some (JString ''tok'')" "count_list (trace w') PostAuth = 1"
    by simp_all
  with start first cached posts all show ?thesis by blast
qed

section \<open>When the handlers answer\<close>

text \<open>
  When the create handler answers: in a state in which the calls of \<open>Log\<close> return, with a
  representable expiry, and with a custom shortcode that is free or some pass of the
  generator that draws a free code.
\<close>

lemma create_short_url_returns:
  assumes "log_safe w"
    and "is_datetime now" and "is_datetime (now + validity rd * 60000000)"
    and "(\<exists>c. shortcode rd = Some c \<and> c \<noteq> [] \<and> url_db w c = None) \<or>
         (\<exists>k. url_db w (nth_code (SHORTCODE_LENGTH cfg) w k) = None)"
  shows "\<exists>resp w'. create_short_url cfg now rd w = Some (Inr resp, w')"
proof (cases "\<exists>c. shortcode rd = Some c \<and> c \<noteq> [] \<and> url_db w c = None")
  case True
  then obtain c where c: "shortcode rd = Some c" "c \<noteq> []" "url_db w c = None" by blast
  let ?w1 = "Log_world backend info handler (''Received request to shorten URL: '' @ url rd) w"
  from assms(1) c have "log_safe ?w1" "url_db ?w1 c = None" by simp_all
  from pick_shortcode_custom_free[OF this(1) c(1,2) this(2), of cfg] obtain w2 where
    "pick_shortcode cfg rd ?w1 = Some (Inr c, w2)" "url_db w2 = url_db ?w1" "log_safe w2"
    by blast
  from create_short_url_ok_ex[OF assms(1) this(1) refl this(3) _ assms(2,3)] this(2)
  show ?thesis by auto
next
  case False
  with assms(4) obtain k where k: "url_db w (nth_code (SHORTCODE_LENGTH cfg) w k) = None"
    by blast
  from False have "shortcode rd = None \<or> shortcode rd = Some [] \<or>
         (\<exists>c. shortcode rd = Some c \<and> url_db w c \<noteq> None)"
    by (cases "shortcode rd") auto
  from create_short_url_generated[OF assms(1) this k, of now]
    expiry_of_representable[OF assms(2,3)]
  show ?thesis by blast
qed

text \<open>
  The loop has no bound: when every code it can draw is taken, the handler never answers.
  With a configured length of 0 the only code is the empty string.
\<close>

lemma generate_loop_length_0: "url_db w [] \<noteq> None \<Longrightarrow> generate_loop 0 w = None"
  by (rule generate_loop_diverges) (simp add: nth_code_eq)

text \<open>
  In any state, whatever the logger does, an access to an unknown shortcode never
  redirects and never changes the store.
\<close>

lemma redirect_unknown_any_state:
  assumes "url_db w code = None"
  shows "(fst (redirect_to_long_url now code w) = Inl (HTTPException 404) \<or>
          fst (redirect_to_long_url now code w) = Inl AttributeError) \<and>
         url_db (snd (redirect_to_long_url now code w)) = url_db w"
  using assms
  by (auto simp: redirect_to_long_url_def and_then_def raises_def
      split: prod.splits sum.splits dest!: Log_worldD)

end
